theory Spec2Isabelle
  imports Complex_Main "HOL-Library.Word"
begin

section \<open>Python values used by the connector\<close>

text \<open>
  JSON-shaped Python values: the payloads sent over the websocket and the frames received
  from it. A Python dict is an association list read with \<open>map_of\<close>.
\<close>

datatype json =
    JNull
  | JBool bool
  | JNum int
  | JStr string
  | JArr "json list"
  | JObj "(string \<times> json) list"

text \<open>
  The exceptions the module can meet. \<open>CancelledError\<close> is the cancellation signal of
  asyncio, \<open>TimeoutError\<close> is asyncio's timeout; every other constructor is an ordinary
  \<open>Exception\<close>.
\<close>

datatype exc =
    CancelledError
  | TimeoutError
  | KeyError string
  | TypeError
  | OverflowError
  | OtherError string

type_synonym byte = "8 word"

subsection \<open>Floats: the product of two doubles and \<open>int(float)\<close>\<close>

text \<open>
  A Python float is an IEEE 754 double; a finite one is the real number it denotes. The
  product of two doubles is the exact product rounded to the nearest double, ties to the
  even mantissa; a result of magnitude \<open>2 ^ 1024\<close> or more is infinite, written \<open>None\<close>.
\<close>

fun bit_length :: "nat \<Rightarrow> nat" where
  "bit_length n = (if n = 0 then 0 else Suc (bit_length (n div 2)))"

declare bit_length.simps [simp del]

definition pow2 :: "int \<Rightarrow> real" where
  "pow2 k = (if 0 \<le> k then 2 ^ nat k else 1 / 2 ^ nat (- k))"

text \<open>The binary exponent of a real other than 0: the \<open>e\<close> with \<open>2 ^ e \<le> \<bar>x\<bar> < 2 ^ (e + 1)\<close>.\<close>

definition exponent :: "real \<Rightarrow> int" where
  "exponent x =
     (if 1 \<le> \<bar>x\<bar> then int (bit_length (nat \<lfloor>\<bar>x\<bar>\<rfloor>)) - 1
      else - int (bit_length (nat (\<lceil>1 / \<bar>x\<bar>\<rceil> - 1))))"

definition round_half_even :: "real \<Rightarrow> int" where
  "round_half_even q =
     (let f = \<lfloor>q\<rfloor>; d = q - of_int f
      in if d < 1 / 2 then f else if 1 / 2 < d then f + 1 else if even f then f else f + 1)"

text \<open>
  Rounding to a double: 53 bits of mantissa, so the unit in the last place is
  \<open>2 ^ (e - 52)\<close>, with the exponent not below \<open>- 1022\<close> (subnormal numbers).
\<close>

definition round_double :: "real \<Rightarrow> real option" where
  "round_double x =
     (if x = 0 then Some 0
      else let e = max (exponent x) (- 1022);
               ulp = pow2 (e - 52);
               r = of_int (round_half_even (x / ulp)) * ulp
           in if 2 ^ 1024 \<le> \<bar>r\<bar> then None else Some r)"

definition float_mul :: "real \<Rightarrow> real \<Rightarrow> real option" where
  "float_mul x y = round_double (x * y)"

subsection \<open>\<open>str(int)\<close>, \<open>str.join\<close>, \<open>hexdigest\<close>\<close>

definition digit_char :: "nat \<Rightarrow> char" where
  "digit_char d = ''0123456789'' ! d"

fun str_nat :: "nat \<Rightarrow> string" where
  "str_nat n = (if n < 10 then [digit_char n] else str_nat (n div 10) @ [digit_char (n mod 10)])"

declare str_nat.simps [simp del]

text \<open>Python's \<open>str\<close> on an int: the decimal digits, with a minus sign when negative.\<close>

definition str_int :: "int \<Rightarrow> string" where
  "str_int i = (if i < 0 then CHR ''-'' # str_nat (nat (- i)) else str_nat (nat i))"

text \<open>
  Python's \<open>int\<close> on a float truncates towards zero, and raises \<open>OverflowError\<close> on an
  infinite one.
\<close>

definition py_int :: "real \<Rightarrow> int" where
  "py_int x = (if 0 \<le> x then \<lfloor>x\<rfloor> else \<lceil>x\<rceil>)"

definition int_of_float :: "real option \<Rightarrow> exc + int" where
  "int_of_float x = (case x of None \<Rightarrow> Inl OverflowError | Some r \<Rightarrow> Inr (py_int r))"

text \<open>Python's \<open>sep.join(xs)\<close>.\<close>

fun join :: "string \<Rightarrow> string list \<Rightarrow> string" where
  "join sep [] = []"
| "join sep [x] = x"
| "join sep (x # y # ys) = x @ sep @ join sep (y # ys)"

text \<open>
  \<open>hexdigest()\<close> of a digest: two lowercase hexadecimal digits per byte, high nibble first.
\<close>

definition hex_digits :: string where
  "hex_digits = ''0123456789abcdef''"

definition hex_byte :: "byte \<Rightarrow> string" where
  "hex_byte b = [hex_digits ! (unat b div 16), hex_digits ! (unat b mod 16)]"

definition hexdigest :: "byte list \<Rightarrow> string" where
  "hexdigest bs = concat (map hex_byte bs)"

section \<open>The signer: \<open>changelly_auth.py\<close>\<close>

text \<open>
  The library functions the signer calls are parameters of the model:
  \<^item> \<open>urlsplit\<close> is \<open>urllib.parse.urlsplit\<close>;
  \<^item> \<open>hmac_sha256 key msg\<close> is the digest of
    \<open>hmac.new(key.encode(), msg.encode(), hashlib.sha256)\<close>;
  \<^item> \<open>b64encode s\<close> is \<open>b64encode(s.encode("utf8")).decode("utf8")\<close>.
\<close>

record SplitResult =
  scheme :: string
  netloc :: string
  path :: string
  query :: string
  fragment :: string

record pylib =
  urlsplit :: "string \<Rightarrow> SplitResult"
  hmac_sha256 :: "string \<Rightarrow> string \<Rightarrow> byte list"
  b64encode :: "string \<Rightarrow> string"

datatype RESTMethod = GET | POST | PUT | PATCH | DELETE | HEAD

text \<open>
  Modelled from the spec: \<open>str(request.method)\<close>. The enum \<open>RESTMethod\<close> is declared outside
  the signer's file; the spec says the first field of the signed message is the HTTP method
  name.
\<close>

fun str_RESTMethod :: "RESTMethod \<Rightarrow> string" where
  "str_RESTMethod GET = ''GET''"
| "str_RESTMethod POST = ''POST''"
| "str_RESTMethod PUT = ''PUT''"
| "str_RESTMethod PATCH = ''PATCH''"
| "str_RESTMethod DELETE = ''DELETE''"
| "str_RESTMethod HEAD = ''HEAD''"

text \<open>The fields of \<open>RESTRequest\<close> that the signer reads; an absent body is \<open>None\<close>.\<close>

record RESTRequest =
  rest_method :: RESTMethod
  url :: string
  data :: "string option"

text \<open>\<open>ChangellyAuth\<close>; the unused \<open>time_provider\<close> field is left out.\<close>

record ChangellyAuth =
  api_key :: string
  secret_key :: string
  window :: int

definition ChangellyAuth_init :: "string \<Rightarrow> string \<Rightarrow> ChangellyAuth" where
  "ChangellyAuth_init k s = \<lparr>api_key = k, secret_key = s, window = 50000\<rparr>"

text \<open>
  \<open>ws_authenticate\<close>. The argument \<open>now\<close> is the double \<open>time.time()\<close> returns at the call;
  \<open>int(time.time() * 1e3)\<close> is the product of two doubles, truncated. The local \<open>window\<close>
  is the constant 10000, not the field of the object.
\<close>

definition ws_authenticate :: "pylib \<Rightarrow> real \<Rightarrow> ChangellyAuth \<Rightarrow> exc + json" where
  "ws_authenticate lib now self =
     (case int_of_float (float_mul now 1000) of
        Inl e \<Rightarrow> Inl e
      | Inr timestamp \<Rightarrow>
          (let window = (10000 :: int);
               message = str_int timestamp;
               message = (if window \<noteq> 0 then message @ str_int window else message);
               sign = hexdigest (hmac_sha256 lib (secret_key self) message)
           in Inr (JObj [(''method'', JStr ''login''),
                         (''params'', JObj [(''type'', JStr ''HS256''),
                                            (''api_key'', JStr (api_key self)),
                                            (''timestamp'', JNum timestamp),
                                            (''window'', JNum window),
                                            (''signature'', JStr sign)])])))"

definition generate_signature :: "pylib \<Rightarrow> ChangellyAuth \<Rightarrow> string list \<Rightarrow> string" where
  "generate_signature lib self message =
     hexdigest (hmac_sha256 lib (secret_key self) (join [] message))"

text \<open>
  \<open>header_for_authentication\<close>. \<open>if url.query\<close> and \<open>if request.data\<close> are Python truth
  tests: an empty string, like an absent body, is false. \<open>int(time.time() * 1000)\<close> is
  again the product of two doubles, truncated.
\<close>

definition header_for_authentication ::
  "pylib \<Rightarrow> real \<Rightarrow> ChangellyAuth \<Rightarrow> RESTRequest \<Rightarrow> exc + (string \<times> string) list" where
  "header_for_authentication lib now self request =
     (let u = urlsplit lib (url request);
          message = [str_RESTMethod (rest_method request), path u];
          message = (if query u \<noteq> [] then (message @ [''?'']) @ [query u] else message);
          message = (case data request of
                       None \<Rightarrow> message
                     | Some d \<Rightarrow> if d \<noteq> [] then message @ [d] else message)
      in case int_of_float (float_mul now 1000) of
           Inl e \<Rightarrow> Inl e
         | Inr ms \<Rightarrow>
             (let timestamp = str_int ms;
                  message = message @ [timestamp];
                  signature = generate_signature lib self message;
                  fields = [api_key self, signature, timestamp];
                  base64_encoded = b64encode lib (join '':'' fields)
              in Inr [(''Authorization'', ''HS256 '' @ base64_encoded)]))"

text \<open>
  The signed message in the words of the specification: method name, path, \<open>?\<close> and the
  query when a query is present, the body when present, the timestamp.
\<close>

definition canonical_message ::
  "string \<Rightarrow> string \<Rightarrow> string \<Rightarrow> string option \<Rightarrow> string \<Rightarrow> string" where
  "canonical_message m p q body ts =
     m @ p @ (if q = [] then [] else ''?'' @ q) @ (case body of None \<Rightarrow> [] | Some d \<Rightarrow> d) @ ts"

section \<open>The user stream data source: \<open>changelly_api_user_stream_data_source.py\<close>\<close>

subsection \<open>Message router\<close>

text \<open>
  The two conversion methods are stubs in the source: their body is \<open>pass\<close>, so they return
  \<open>None\<close> and raise nothing.
\<close>

definition convert_to_internal_order_format :: "json \<Rightarrow> exc + json" where
  "convert_to_internal_order_format order = Inr JNull"

definition convert_to_internal_balance_format :: "json \<Rightarrow> exc + json" where
  "convert_to_internal_balance_format balance = Inr JNull"

text \<open>
  What a Python \<open>for\<close> loop iterates over: the elements of a list, the keys of a dict, the
  characters of a string; anything else raises \<open>TypeError\<close>.
\<close>

fun py_iter :: "json \<Rightarrow> exc + json list" where
  "py_iter (JArr xs) = Inr xs"
| "py_iter (JObj kvs) = Inr (map (\<lambda>kv. JStr (fst kv)) kvs)"
| "py_iter (JStr s) = Inr (map (\<lambda>c. JStr [c]) s)"
| "py_iter _ = Inl TypeError"

text \<open>
  The loop shared by \<open>_handle_spot_order\<close> and \<open>_handle_spot_balance\<close>: convert an element,
  then \<open>put_nowait\<close> the result on the (unbounded) queue. The conversion is a method of the
  object, so the handlers take it as an argument. An exception leaves the loop at once; the
  queue keeps what was put before, and the exception is returned beside it.
\<close>

fun put_each :: "(json \<Rightarrow> exc + json) \<Rightarrow> json list \<Rightarrow> json list \<Rightarrow> json list \<times> exc option" where
  "put_each conv [] output_queue = (output_queue, None)"
| "put_each conv (x # xs) output_queue =
     (case conv x of
        Inl e \<Rightarrow> (output_queue, Some e)
      | Inr v \<Rightarrow> put_each conv xs (output_queue @ [v]))"

definition handle_spot_order ::
  "(json \<Rightarrow> exc + json) \<Rightarrow> json \<Rightarrow> json list \<Rightarrow> json list \<times> exc option" where
  "handle_spot_order conv params output_queue =
     (case py_iter params of
        Inl e \<Rightarrow> (output_queue, Some e)
      | Inr orders \<Rightarrow> put_each conv orders output_queue)"

definition handle_spot_balance ::
  "(json \<Rightarrow> exc + json) \<Rightarrow> json \<Rightarrow> json list \<Rightarrow> json list \<times> exc option" where
  "handle_spot_balance conv params output_queue =
     (case py_iter params of
        Inl e \<Rightarrow> (output_queue, Some e)
      | Inr balances \<Rightarrow> put_each conv balances output_queue)"

text \<open>A received frame is a dict.\<close>

type_synonym frame = "(string \<times> json) list"

record normalizers =
  order_format :: "json \<Rightarrow> exc + json"
  balance_format :: "json \<Rightarrow> exc + json"

definition stub_normalizers :: normalizers where
  "stub_normalizers =
     \<lparr>order_format = convert_to_internal_order_format,
      balance_format = convert_to_internal_balance_format\<rparr>"

text \<open>
  The body of the \<open>async for\<close> loop of \<open>_process_ws_messages\<close> for one frame.
  \<open>data["params"]\<close> is read as soon as the frame has a \<open>method\<close> key, before the method is
  looked at; a missing key raises \<open>KeyError\<close>.
\<close>

definition process_ws_message ::
  "normalizers \<Rightarrow> frame \<Rightarrow> json list \<Rightarrow> json list \<times> exc option" where
  "process_ws_message nz frame_data output_queue =
     (case map_of frame_data ''method'' of
        None \<Rightarrow> (output_queue, None)
      | Some method \<Rightarrow>
          (case map_of frame_data ''params'' of
             None \<Rightarrow> (output_queue, Some (KeyError ''params''))
           | Some params \<Rightarrow>
               if method = JStr ''spot_order'' \<or> method = JStr ''spot_orders''
               then handle_spot_order (order_format nz) params output_queue
               else if method = JStr ''spot_balance''
               then handle_spot_balance (balance_format nz) params output_queue
               else (output_queue, None)))"

subsection \<open>The object and its collaborators\<close>

text \<open>A \<open>WSAssistant\<close> instance is known by its identity.\<close>

type_synonym handle = nat

text \<open>
  The module \<open>changelly_constants\<close> is not among the sources; the constants the data source
  reads from it are parameters.
\<close>

record constants =
  WSS_TRADING_URL :: string
  SPOT_SUBSCRIBE :: string
  WS_HEARTBEAT_TIME_INTERVAL :: real

definition SPOT_STREAM_ID :: int where
  "SPOT_STREAM_ID = 21"

record deps =
  lib :: pylib
  CONSTANTS :: constants
  norm :: normalizers

text \<open>
  The fields of \<open>ChangellyAPIUserStreamDataSource\<close>. \<open>_ws_assistant\<close> is declared by the
  base class; \<open>_last_ws_message_sent_timestamp\<close> does not exist before its first assignment.
\<close>

record data_source =
  auth :: ChangellyAuth
  current_listen_key :: "string option"
  trading_pairs :: "string list"
  last_recv_time_attr :: real
  ws_assistant :: "handle option"
  last_ws_message_sent_timestamp :: "real option"

text \<open>
  \<open>__init__\<close>. The value \<open>ws0\<close> is what the constructor of the base class leaves in
  \<open>_ws_assistant\<close>; \<open>trading_pairs or []\<close> turns \<open>None\<close> into the empty list.
\<close>

definition init :: "handle option \<Rightarrow> ChangellyAuth \<Rightarrow> string list option \<Rightarrow> data_source" where
  "init ws0 a pairs =
     \<lparr>auth = a,
      current_listen_key = None,
      trading_pairs = (case pairs of None \<Rightarrow> [] | Some ps \<Rightarrow> if ps = [] then [] else ps),
      last_recv_time_attr = 0,
      ws_assistant = ws0,
      last_ws_message_sent_timestamp = None\<rparr>"

definition last_recv_time :: "data_source \<Rightarrow> real" where
  "last_recv_time self = last_recv_time_attr self"

subsection \<open>The supervisor as a state machine\<close>

text \<open>
  \<open>listen_for_user_stream\<close> is a coroutine: it runs until it awaits a call of a
  collaborator, and goes on when the call completes. The model is a step function. A state
  records which awaited call is pending; an event is the time at which the call completes
  together with its outcome. Everything the coroutine asks of its collaborators is appended
  to a trace.
\<close>

datatype pc =
    AwaitFactory
  | AwaitConnect
  | AwaitSend
  | AwaitMessages
  | AwaitDisconnect "exc option"
  | AwaitSleep "exc option"
  | Finished exc

datatype action =
    CallFactory
  | Connect handle string
  | Send handle json
  | WaitMessages handle real
  | Disconnect handle
  | Sleep real
  | LogException string

datatype signal =
    Returned
  | Created handle
  | Raised exc
  | Received frame

type_synonym event = "real \<times> signal"

record supervisor =
  obj :: data_source
  ws :: "handle option"
  pc :: pc
  output_queue :: "json list"
  trace :: "action list"
  clock :: real

definition emit :: "action \<Rightarrow> supervisor \<Rightarrow> supervisor" where
  "emit a s = s\<lparr>trace := trace s @ [a]\<rparr>"

definition retry_message :: string where
  "retry_message = ''Unexpected error while listening to user stream. Retrying after 5 seconds...''"

text \<open>
  The \<open>finally\<close> block (lines 83 to 86), entered with the exception that is raised again
  when the block is left, if there is one. \<open>ws and await ws.disconnect()\<close> calls nothing
  when \<open>ws\<close> is \<open>None\<close>.
\<close>

definition finally_block :: "exc option \<Rightarrow> supervisor \<Rightarrow> supervisor" where
  "finally_block pending s =
     (case ws s of
        None \<Rightarrow> emit (Sleep 5) (s\<lparr>pc := AwaitSleep pending\<rparr>)
      | Some h \<Rightarrow> emit (Disconnect h) (s\<lparr>pc := AwaitDisconnect pending\<rparr>))"

text \<open>
  The \<open>except\<close> clauses of the outer \<open>try\<close> (lines 79 to 82): a cancellation is raised
  again, any other exception is logged and dropped. Either way the \<open>finally\<close> block runs.
\<close>

definition outer_except :: "exc \<Rightarrow> supervisor \<Rightarrow> supervisor" where
  "outer_except e s =
     (if e = CancelledError then finally_block (Some CancelledError) s
      else finally_block None (emit (LogException retry_message) s))"

text \<open>
  The head of the inner loop (lines 70 to 75): compute the time left and wait for
  \<open>_process_ws_messages\<close> under that timeout. Reading a field that does not exist, or
  calling a method of \<open>None\<close>, raises \<open>AttributeError\<close>.
\<close>

definition inner_loop :: "deps \<Rightarrow> supervisor \<Rightarrow> supervisor" where
  "inner_loop d s =
     (case last_ws_message_sent_timestamp (obj s) of
        None \<Rightarrow> outer_except (OtherError ''AttributeError'') s
      | Some sent \<Rightarrow>
          let seconds_until_next_ping =
                WS_HEARTBEAT_TIME_INTERVAL (CONSTANTS d) - (clock s - sent)
          in (case ws s of
                None \<Rightarrow> outer_except (OtherError ''AttributeError'') s
              | Some h \<Rightarrow> emit (WaitMessages h seconds_until_next_ping) (s\<lparr>pc := AwaitMessages\<rparr>)))"

text \<open>
  The \<open>except asyncio.TimeoutError\<close> clause of the inner \<open>try\<close> (lines 76 to 78), then the
  next turn of the inner loop. Any other exception leaves the inner loop for the outer
  \<open>try\<close>.
\<close>

definition inner_except :: "deps \<Rightarrow> exc \<Rightarrow> supervisor \<Rightarrow> supervisor" where
  "inner_except d e s =
     (if e = TimeoutError
      then let ping_time = clock s
           in inner_loop d (s\<lparr>obj := (obj s)\<lparr>last_ws_message_sent_timestamp := Some ping_time\<rparr>\<rparr>)
      else outer_except e s)"

text \<open>
  \<open>_authenticate_connection\<close> (lines 51 and 52): the payload is built first, then sent.
\<close>

definition authenticate_connection :: "deps \<Rightarrow> supervisor \<Rightarrow> supervisor" where
  "authenticate_connection d s =
     (case ws_authenticate (lib d) (clock s) (auth (obj s)) of
        Inl e \<Rightarrow> outer_except e s
      | Inr auth_message \<Rightarrow>
          (case ws s of
             None \<Rightarrow> outer_except (OtherError ''AttributeError'') s
           | Some h \<Rightarrow> emit (Send h auth_message) (s\<lparr>pc := AwaitSend\<rparr>)))"

text \<open>\<open>ws.connect\<close> (line 65).\<close>

definition connect_call :: "deps \<Rightarrow> supervisor \<Rightarrow> supervisor" where
  "connect_call d s =
     (case ws s of
        None \<Rightarrow> outer_except (OtherError ''AttributeError'') s
      | Some h \<Rightarrow> emit (Connect h (WSS_TRADING_URL (CONSTANTS d))) (s\<lparr>pc := AwaitConnect\<rparr>))"

text \<open>
  The top of the outer loop (line 64) with \<open>_get_ws_assistant\<close> (lines 154 to 156): the
  factory is called only when \<open>_ws_assistant\<close> is \<open>None\<close>; otherwise the stored instance is
  returned.
\<close>

definition begin_cycle :: "deps \<Rightarrow> supervisor \<Rightarrow> supervisor" where
  "begin_cycle d s =
     (case ws_assistant (obj s) of
        None \<Rightarrow> emit CallFactory (s\<lparr>pc := AwaitFactory\<rparr>)
      | Some h \<Rightarrow> connect_call d (s\<lparr>ws := Some h\<rparr>))"

text \<open>
  One step: the pending call completes at time \<open>fst ev\<close> with outcome \<open>snd ev\<close>. An outcome
  the pending call cannot have leaves the state as it is, and so does any event after the
  coroutine has finished. An exception raised inside the \<open>finally\<close> block leaves the
  coroutine.
\<close>

definition step :: "deps \<Rightarrow> supervisor \<Rightarrow> event \<Rightarrow> supervisor" where
  "step d s ev =
     (let s' = s\<lparr>clock := fst ev\<rparr>
      in case pc s of
           Finished e \<Rightarrow> s
         | AwaitFactory \<Rightarrow>
             (case snd ev of
                Created h \<Rightarrow>
                  connect_call d (s'\<lparr>obj := (obj s')\<lparr>ws_assistant := Some h\<rparr>, ws := Some h\<rparr>)
              | Raised e \<Rightarrow> outer_except e s'
              | _ \<Rightarrow> s)
         | AwaitConnect \<Rightarrow>
             (case snd ev of
                Returned \<Rightarrow> authenticate_connection d s'
              | Raised e \<Rightarrow> outer_except e s'
              | _ \<Rightarrow> s)
         | AwaitSend \<Rightarrow>
             (case snd ev of
                Returned \<Rightarrow>
                  inner_loop d
                    (s'\<lparr>obj := (obj s')\<lparr>last_ws_message_sent_timestamp := Some (clock s')\<rparr>\<rparr>)
              | Raised e \<Rightarrow> outer_except e s'
              | _ \<Rightarrow> s)
         | AwaitMessages \<Rightarrow>
             (case snd ev of
                Received frame_data \<Rightarrow>
                  (case process_ws_message (norm d) frame_data (output_queue s') of
                     (out, None) \<Rightarrow> s'\<lparr>output_queue := out\<rparr>
                   | (out, Some e) \<Rightarrow> inner_except d e (s'\<lparr>output_queue := out\<rparr>))
              | Returned \<Rightarrow> inner_loop d s'
              | Raised e \<Rightarrow> inner_except d e s'
              | _ \<Rightarrow> s)
         | AwaitDisconnect pending \<Rightarrow>
             (case snd ev of
                Returned \<Rightarrow> emit (Sleep 5) (s'\<lparr>pc := AwaitSleep pending\<rparr>)
              | Raised e \<Rightarrow> s'\<lparr>pc := Finished e\<rparr>
              | _ \<Rightarrow> s)
         | AwaitSleep pending \<Rightarrow>
             (case snd ev of
                Returned \<Rightarrow>
                  (case pending of
                     Some e \<Rightarrow> s'\<lparr>pc := Finished e\<rparr>
                   | None \<Rightarrow> begin_cycle d s')
              | Raised e \<Rightarrow> s'\<lparr>pc := Finished e\<rparr>
              | _ \<Rightarrow> s))"

definition run :: "deps \<Rightarrow> supervisor \<Rightarrow> event list \<Rightarrow> supervisor" where
  "run d s evs = foldl (step d) s evs"

text \<open>
  \<open>listen_for_user_stream\<close> called at time \<open>t0\<close>: \<open>ws = None\<close>, then the first turn of the
  outer loop up to its first awaited call.
\<close>

definition listen_for_user_stream :: "deps \<Rightarrow> data_source \<Rightarrow> json list \<Rightarrow> real \<Rightarrow> supervisor" where
  "listen_for_user_stream d self out t0 =
     begin_cycle d
       \<lparr>obj = self, ws = None, pc = AwaitFactory, output_queue = out, trace = [], clock = t0\<rparr>"

text \<open>
  \<open>_subscribe_channels\<close>: one \<open>ws.send\<close> of the same payload for each trading pair. The
  list \<open>outcomes\<close> gives, send by send, the exception the transport raises, if any; a raise
  ends the loop. The result is the sends made and the exception that ended the loop.
\<close>

definition subscribe_payload :: "constants \<Rightarrow> json" where
  "subscribe_payload c =
     JObj [(''method'', JStr (SPOT_SUBSCRIBE c)), (''params'', JObj []), (''id'', JNum SPOT_STREAM_ID)]"

fun subscribe_channels ::
  "constants \<Rightarrow> handle \<Rightarrow> string list \<Rightarrow> exc option list \<Rightarrow> action list \<times> exc option" where
  "subscribe_channels c h [] outcomes = ([], None)"
| "subscribe_channels c h (trading_pair # rest) outcomes =
     (case outcomes of
        Some e # _ \<Rightarrow> ([Send h (subscribe_payload c)], Some e)
      | _ \<Rightarrow> (case subscribe_channels c h rest (drop 1 outcomes) of
                (sends, r) \<Rightarrow> (Send h (subscribe_payload c) # sends, r)))"

subsection \<open>Notions used to state the properties\<close>

text \<open>The instance an action is performed on.\<close>

fun handle_of :: "action \<Rightarrow> handle option" where
  "handle_of (Connect h u) = Some h"
| "handle_of (Send h p) = Some h"
| "handle_of (WaitMessages h t) = Some h"
| "handle_of (Disconnect h) = Some h"
| "handle_of _ = None"

text \<open>
  The calls made inside the outer \<open>try\<close>: creating the instance, connecting, sending the
  login, waiting for frames.
\<close>

fun in_try :: "pc \<Rightarrow> bool" where
  "in_try AwaitFactory = True"
| "in_try AwaitConnect = True"
| "in_try AwaitSend = True"
| "in_try AwaitMessages = True"
| "in_try _ = False"

fun finished :: "pc \<Rightarrow> bool" where
  "finished (Finished e) = True"
| "finished _ = False"

text \<open>
  The exception an event raises in the coroutine, if any: the one the pending call raises,
  or the one the router raises on a received frame.
\<close>

fun raised :: "deps \<Rightarrow> supervisor \<Rightarrow> signal \<Rightarrow> exc option" where
  "raised d s (Raised e) = Some e"
| "raised d s (Received frame_data) =
     (if pc s = AwaitMessages
      then snd (process_ws_message (norm d) frame_data (output_queue s))
      else None)"
| "raised d s _ = None"

text \<open>
  An event that is no cancellation and no failure of the cleanup itself: if it raises an
  exception, the exception is not \<open>CancelledError\<close> and the pending call is one of the
  \<open>try\<close> block. A run of such events is checked state by state.
\<close>

definition no_cancel :: "deps \<Rightarrow> supervisor \<Rightarrow> signal \<Rightarrow> bool" where
  "no_cancel d s sig =
     (case raised d s sig of
        None \<Rightarrow> True
      | Some e \<Rightarrow> e \<noteq> CancelledError \<and> in_try (pc s))"

fun no_cancel_run :: "deps \<Rightarrow> supervisor \<Rightarrow> event list \<Rightarrow> bool" where
  "no_cancel_run d s [] = True"
| "no_cancel_run d s (ev # evs) = (no_cancel d s (snd ev) \<and> no_cancel_run d (step d s ev) evs)"

text \<open>
  A state from which the coroutine goes on: it has not finished and carries no exception
  to raise after the cleanup.
\<close>

fun alive :: "pc \<Rightarrow> bool" where
  "alive (AwaitDisconnect p) = (p = None)"
| "alive (AwaitSleep p) = (p = None)"
| "alive (Finished e) = False"
| "alive _ = True"

text \<open>
  The invariant of the coroutine: the local \<open>ws\<close> is the instance stored in the object;
  while none is stored no call on an instance is pending or was made; once one is stored
  the factory is not awaited and every call made so far was made on that instance.
\<close>

fun uses_handle :: "pc \<Rightarrow> bool" where
  "uses_handle AwaitConnect = True"
| "uses_handle AwaitSend = True"
| "uses_handle AwaitMessages = True"
| "uses_handle _ = False"

definition wf :: "supervisor \<Rightarrow> bool" where
  "wf s =
     (case ws_assistant (obj s) of
        None \<Rightarrow> ws s = None \<and> \<not> uses_handle (pc s) \<and> (\<forall>a\<in>set (trace s). handle_of a = None)
      | Some h \<Rightarrow> ws s = Some h \<and> pc s \<noteq> AwaitFactory
                  \<and> (\<forall>a\<in>set (trace s). handle_of a = None \<or> handle_of a = Some h))"

text \<open>The events that complete the cleanup: the disconnect, when one is called, and the sleep.\<close>

definition cleanup_done :: "handle option \<Rightarrow> real \<Rightarrow> real \<Rightarrow> event list" where
  "cleanup_done w t1 t2 =
     (case w of None \<Rightarrow> [(t2, Returned)] | Some h \<Rightarrow> [(t1, Returned), (t2, Returned)])"

text \<open>The first call of a cycle.\<close>

definition first_call :: "deps \<Rightarrow> data_source \<Rightarrow> action" where
  "first_call d self =
     (case ws_assistant self of
        None \<Rightarrow> CallFactory
      | Some h \<Rightarrow> Connect h (WSS_TRADING_URL (CONSTANTS d)))"

subsection \<open>Concrete collaborators, for evaluation\<close>

text \<open>
  Stand-ins for the library functions, used where a property is evaluated on an example:
  \<open>urlsplit\<close> answers with the parts of \<open>https://h/p?q=1\<close>, the digest is the bytes of key
  and message, and the base64 encoding is the identity, so that the signed text stays
  readable.
\<close>

definition demo_lib :: pylib where
  "demo_lib =
     \<lparr>urlsplit = (\<lambda>u. \<lparr>scheme = ''https'', netloc = ''h'', path = ''/p'', query = ''q=1'',
                         fragment = []\<rparr>),
      hmac_sha256 = (\<lambda>k m. map (\<lambda>c. of_nat (of_char c)) (k @ m)),
      b64encode = (\<lambda>s. s)\<rparr>"

text \<open>
  Modelled from the spec: the constants of \<open>changelly_constants\<close>. The spec gives the
  subscribe method \<open>spot_subscribe\<close> and the heartbeat interval of 30 seconds; the URL is
  a placeholder.
\<close>

definition spec_constants :: constants where
  "spec_constants =
     \<lparr>WSS_TRADING_URL = ''wss://stream'',
      SPOT_SUBSCRIBE = ''spot_subscribe'',
      WS_HEARTBEAT_TIME_INTERVAL = 30\<rparr>"

definition demo_deps :: deps where
  "demo_deps = \<lparr>lib = demo_lib, CONSTANTS = spec_constants, norm = stub_normalizers\<rparr>"

definition demo_source :: data_source where
  "demo_source = init None (ChangellyAuth_init ''k1'' ''s1'') (Some [''BTC-USDT''])"

text \<open>The coroutine started on the example at time 0 with an empty queue.\<close>

definition demo_start :: supervisor where
  "demo_start = listen_for_user_stream demo_deps demo_source [] 0"

text \<open>
  A clock reading of the present: the double nearest to 1700000000.001, which is
  \<open>3565158400002097 / 2 ^ 21\<close>.
\<close>

definition demo_now :: real where
  "demo_now = 3565158400002097 / 2097152"

text \<open>
  The login payload of the example signed at time 2: the timestamp is 2000, and the
  stand-in digest spells the key \<open>s1\<close> and the message \<open>200010000\<close>.
\<close>

definition demo_login :: json where
  "demo_login =
     JObj [(''method'', JStr ''login''),
           (''params'', JObj [(''type'', JStr ''HS256''),
                              (''api_key'', JStr ''k1''),
                              (''timestamp'', JNum 2000),
                              (''window'', JNum 10000),
                              (''signature'', JStr ''7331323030303130303030'')])]"

section \<open>Properties of the float product\<close>

lemma bit_length_lower: "0 < n \<Longrightarrow> 2 ^ (bit_length n - 1) \<le> n"
proof (induction n rule: bit_length.induct)
  case (1 n)
  show ?case
  proof (cases "n div 2 = 0")
    case True
    with 1 show ?thesis by (simp add: bit_length.simps [of n] bit_length.simps [of 0])
  next
    case False
    then have "0 < n div 2" by simp
    with 1 have ih: "2 ^ (bit_length (n div 2) - 1) \<le> n div 2" by simp
    have "0 < bit_length (n div 2)" using False by (simp add: bit_length.simps [of "n div 2"])
    then have "2 ^ (bit_length n - 1) = 2 * 2 ^ (bit_length (n div 2) - 1)"
      using 1(2) by (simp add: bit_length.simps [of n] flip: power_Suc)
    also have "\<dots> \<le> 2 * (n div 2)" using ih by simp
    also have "\<dots> \<le> n" by simp
    finally show ?thesis .
  qed
qed

lemma pow2_pos: "0 < pow2 k"
  by (simp add: pow2_def)

lemma pow2_mono: "a \<le> b \<Longrightarrow> pow2 a \<le> pow2 b"
proof -
  have "pow2 k = 2 powr (of_int k)" for k
    by (simp add: pow2_def powr_realpow [symmetric] powr_minus [symmetric] divide_inverse
        flip: powr_minus)
  then show "a \<le> b \<Longrightarrow> pow2 a \<le> pow2 b" by simp
qed

lemma round_half_even_near: "\<bar>of_int (round_half_even q) - q\<bar> \<le> 1"
  unfolding round_half_even_def Let_def by (auto; linarith)

lemma exponent_le: "1 \<le> \<bar>x\<bar> \<Longrightarrow> pow2 (exponent x) \<le> \<bar>x\<bar>"
proof -
  assume a: "1 \<le> \<bar>x\<bar>"
  let ?n = "nat \<lfloor>\<bar>x\<bar>\<rfloor>"
  from a have pos: "0 < ?n" by simp
  then have bl: "0 < bit_length ?n" by (simp add: bit_length.simps [of ?n])
  from bit_length_lower [OF pos] have "(2::real) ^ (bit_length ?n - 1) \<le> real ?n"
    by (metis of_nat_le_iff of_nat_numeral of_nat_power)
  also have "real ?n \<le> \<bar>x\<bar>" using a by (simp add: of_nat_nat)
  finally have "(2::real) ^ (bit_length ?n - 1) \<le> \<bar>x\<bar>" .
  moreover have "exponent x = int (bit_length ?n - 1)" using a bl by (simp add: exponent_def)
  ultimately show ?thesis by (simp add: pow2_def)
qed

lemma exponent_small: "\<bar>x\<bar> < 1 \<Longrightarrow> exponent x \<le> 0"
  by (simp add: exponent_def)

text \<open>A product below \<open>2 ^ 1000\<close> in magnitude rounds to a finite double.\<close>

lemma round_double_finite: "\<bar>x\<bar> < 2 ^ 1000 \<Longrightarrow> round_double x \<noteq> None"
proof (cases "x = 0")
  case True
  then show ?thesis by (simp add: round_double_def)
next
  case False
  assume b: "\<bar>x\<bar> < 2 ^ 1000"
  define e where "e = max (exponent x) (- 1022)"
  define ulp where "ulp = pow2 (e - 52)"
  define r where "r = of_int (round_half_even (x / ulp)) * ulp"
  have up: "0 < ulp" by (simp add: ulp_def pow2_pos)
  have "\<bar>of_int (round_half_even (x / ulp)) - x / ulp\<bar> \<le> 1" by (rule round_half_even_near)
  then have "\<bar>of_int (round_half_even (x / ulp)) - x / ulp\<bar> * ulp \<le> 1 * ulp"
    using up by (intro mult_right_mono) simp_all
  moreover have "of_int (round_half_even (x / ulp)) * ulp - x
                   = (of_int (round_half_even (x / ulp)) - x / ulp) * ulp"
    using up by (simp add: field_simps)
  ultimately have "\<bar>of_int (round_half_even (x / ulp)) * ulp - x\<bar> \<le> ulp"
    using up by (simp add: abs_mult)
  then have near: "\<bar>r\<bar> \<le> \<bar>x\<bar> + ulp" unfolding r_def by linarith
  have "ulp \<le> max \<bar>x\<bar> 1"
  proof (cases "1 \<le> \<bar>x\<bar>")
    case True
    then have "- 1022 \<le> exponent x"
      by (simp add: exponent_def)
    then have "e = exponent x" by (simp add: e_def)
    then have "ulp \<le> pow2 (exponent x)" unfolding ulp_def by (intro pow2_mono) simp
    with exponent_le [OF True] show ?thesis by simp
  next
    case False
    then have "exponent x \<le> 0" by (simp add: exponent_small)
    then have "e \<le> 0" by (simp add: e_def)
    then have "ulp \<le> pow2 0" unfolding ulp_def by (intro pow2_mono) simp
    then show ?thesis by (simp add: pow2_def)
  qed
  with near have "\<bar>r\<bar> \<le> 2 * max \<bar>x\<bar> 1" by linarith
  also have "\<dots> < 2 ^ 1024" using b by simp
  finally have "\<not> 2 ^ 1024 \<le> \<bar>r\<bar>" by simp
  with False show ?thesis
    by (simp add: round_double_def Let_def e_def [symmetric] ulp_def [symmetric] r_def [symmetric])
qed

lemma float_mul_1000_finite: "\<bar>now\<bar> < 2 ^ 990 \<Longrightarrow> float_mul now 1000 \<noteq> None"
proof -
  assume "\<bar>now\<bar> < 2 ^ 990"
  then have "\<bar>now\<bar> * 1000 < 2 ^ 990 * 2 ^ 10" by (intro mult_strict_mono) simp_all
  then have "\<bar>now * 1000\<bar> < 2 ^ 1000" by (simp add: abs_mult flip: power_add)
  then show ?thesis unfolding float_mul_def by (rule round_double_finite)
qed

text \<open>
  At the clock reading \<open>demo_now\<close> the product of the doubles is 1700000000001 exactly,
  while the product of the reals lies just below it and would truncate to 1700000000000.
\<close>

lemma float_mul_demo_now: "float_mul demo_now 1000 = Some 1700000000001"
  by (simp add: demo_now_def float_mul_def round_double_def exponent_def bit_length.simps
      pow2_def round_half_even_def Let_def)

lemma real_product_demo_now: "py_int (demo_now * 1000) = 1700000000000"
  by (simp add: demo_now_def py_int_def)

lemma float_mul_2: "float_mul 2 1000 = Some 2000"
  by (simp add: float_mul_def round_double_def exponent_def bit_length.simps pow2_def
      round_half_even_def Let_def)

lemma demo_now_small: "\<bar>demo_now\<bar> < 2 ^ 990"
  by (simp add: demo_now_def)

section \<open>Properties of the signer\<close>

lemma join_empty_sep: "join [] xs = concat xs"
  by (induction "[] :: string" xs rule: join.induct) simp_all

lemma hex_digit_lower: "n < 16 \<Longrightarrow> hex_digits ! n \<in> set hex_digits"
proof -
  assume "n < 16"
  moreover have "length hex_digits = 16" by (simp add: hex_digits_def)
  ultimately have "n < length hex_digits" by simp
  then show ?thesis by (rule nth_mem)
qed

lemma hex_byte_lower: "set (hex_byte b) \<subseteq> set hex_digits"
proof -
  have "unat b < 2 ^ LENGTH(8)" by (rule unsigned_less)
  then have "unat b div 16 < 16" by simp
  moreover have "unat b mod 16 < 16" by simp
  ultimately show ?thesis
    unfolding hex_byte_def using hex_digit_lower by simp
qed

lemma hexdigest_lower: "set (hexdigest bs) \<subseteq> set hex_digits"
  unfolding hexdigest_def using hex_byte_lower by auto

lemma hexdigest_length: "length (hexdigest bs) = 2 * length bs"
  unfolding hexdigest_def by (induction bs) (simp_all add: hex_byte_def)

lemma str_int_10000: "str_int 10000 = ''10000''"
  by (simp add: str_int_def str_nat.simps digit_char_def)

lemma str_int_2000: "str_int 2000 = ''2000''"
  by (simp add: str_int_def str_nat.simps digit_char_def)

lemma str_int_demo: "str_int 1700000000001 = ''1700000000001''"
  by (simp add: str_int_def str_nat.simps digit_char_def)

text \<open>\<open>str_nat\<close> writes a number in base ten: reading the digits back gives the number.\<close>

lemma digit_char_value: "d < 10 \<Longrightarrow> of_char (digit_char d) - 48 = d"
proof -
  assume "d < 10"
  then have "d \<in> {0, 1, 2, 3, 4, 5, 6, 7, 8, 9}" by auto
  then show ?thesis by (auto simp: digit_char_def)
qed

lemma str_nat_decimal: "foldl (\<lambda>a c. 10 * a + (of_char c - 48)) 0 (str_nat n) = n"
proof (induction n rule: str_nat.induct)
  case (1 n)
  show ?case
  proof (cases "n < 10")
    case True
    then show ?thesis by (subst str_nat.simps) (simp add: digit_char_value)
  next
    case False
    with 1 show ?thesis by (subst str_nat.simps) (simp add: digit_char_value)
  qed
qed

lemma ws_authenticate_error: "ws_authenticate lb now self = Inl e \<Longrightarrow> e = OverflowError"
  by (auto simp: ws_authenticate_def int_of_float_def Let_def split: option.splits)

text \<open>
  C1. The header that \<open>header_for_authentication\<close> returns is \<open>Authorization\<close> with the
  value \<open>HS256\<close>, a space, and the base64 encoding of api key, digest and timestamp joined
  by colons. The digest is the lowercase hexadecimal HMAC-SHA256, under the secret key, of
  method name, path, \<open>?\<close> and query when the query is not empty, body when there is one,
  and the millisecond timestamp, concatenated in this order with nothing in between. The
  timestamp is the product of the clock reading and 1000 as doubles, truncated; the call
  returns for every clock reading below \<open>2 ^ 990\<close> in magnitude, and raises
  \<open>OverflowError\<close> only when that product is infinite.
\<close>

theorem header_for_authentication_value:
  "header_for_authentication lb now self request =
     (case float_mul now 1000 of
        None \<Rightarrow> Inl OverflowError
      | Some product \<Rightarrow>
          (let u = urlsplit lb (url request);
               timestamp = str_int (py_int product);
               digest = hexdigest (hmac_sha256 lb (secret_key self)
                          (canonical_message (str_RESTMethod (rest_method request)) (path u)
                             (query u) (data request) timestamp))
           in Inr [(''Authorization'',
                    ''HS256 '' @ b64encode lb (api_key self @ '':'' @ digest @ '':'' @ timestamp))]))
   \<and> set (hexdigest bs) \<subseteq> set hex_digits
   \<and> (\<bar>now\<bar> < 2 ^ 990 \<longrightarrow> float_mul now 1000 \<noteq> None)"
proof (intro conjI impI)
  show "set (hexdigest bs) \<subseteq> set hex_digits" by (rule hexdigest_lower)
  show "float_mul now 1000 \<noteq> None" if "\<bar>now\<bar> < 2 ^ 990"
    using that by (rule float_mul_1000_finite)
  show "header_for_authentication lb now self request =
     (case float_mul now 1000 of
        None \<Rightarrow> Inl OverflowError
      | Some product \<Rightarrow>
          (let u = urlsplit lb (url request);
               timestamp = str_int (py_int product);
               digest = hexdigest (hmac_sha256 lb (secret_key self)
                          (canonical_message (str_RESTMethod (rest_method request)) (path u)
                             (query u) (data request) timestamp))
           in Inr [(''Authorization'',
                    ''HS256 '' @ b64encode lb (api_key self @ '':'' @ digest @ '':'' @ timestamp))]))"
    by (simp add: header_for_authentication_def generate_signature_def canonical_message_def
        int_of_float_def join_empty_sep Let_def split: option.splits)
qed

theorem header_for_authentication_value_witness:
  "\<bar>demo_now\<bar> < 2 ^ 990
   \<and> header_for_authentication demo_lib demo_now (ChangellyAuth_init ''k1'' ''s1'')
       \<lparr>rest_method = GET, url = ''https://h/p?q=1'', data = Some ''{}''\<rparr>
     = Inr [(''Authorization'',
             ''HS256 k1:73314745542f703f713d317b7d31373030303030303030303031:1700000000001'')]"
proof -
  have t: "py_int 1700000000001 = 1700000000001" by (simp add: py_int_def)
  from header_for_authentication_value [where lb = demo_lib and now = demo_now
      and self = "ChangellyAuth_init ''k1'' ''s1''"
      and request = "\<lparr>rest_method = GET, url = ''https://h/p?q=1'', data = Some ''{}''\<rparr>"]
  have "header_for_authentication demo_lib demo_now (ChangellyAuth_init ''k1'' ''s1'')
       \<lparr>rest_method = GET, url = ''https://h/p?q=1'', data = Some ''{}''\<rparr>
     = Inr [(''Authorization'',
             ''HS256 k1:73314745542f703f713d317b7d31373030303030303030303031:1700000000001'')]"
    and "\<bar>demo_now\<bar> < 2 ^ 990 \<longrightarrow> float_mul demo_now 1000 \<noteq> None"
    by (simp_all add: float_mul_demo_now t str_int_demo demo_lib_def ChangellyAuth_init_def
        canonical_message_def hexdigest_def hex_byte_def hex_digits_def Let_def)
  with demo_now_small show ?thesis by simp
qed

text \<open>
  C2. The login payload that \<open>ws_authenticate\<close> returns has method \<open>login\<close> and the
  parameters type \<open>HS256\<close>, the api key of the credentials, the millisecond timestamp of the
  call, the window 10000, and as signature the lowercase hexadecimal HMAC-SHA256, under the
  secret key, of the decimal timestamp followed at once by the decimal window. The
  timestamp is the product of the clock reading and 1000 as doubles, truncated; the call
  returns for every clock reading below \<open>2 ^ 990\<close> in magnitude, and raises
  \<open>OverflowError\<close> only when that product is infinite.
\<close>

theorem ws_authenticate_payload:
  "ws_authenticate lb now self =
     (case float_mul now 1000 of
        None \<Rightarrow> Inl OverflowError
      | Some product \<Rightarrow>
          (let timestamp = py_int product;
               signature = hexdigest (hmac_sha256 lb (secret_key self)
                             (str_int timestamp @ str_int 10000))
           in Inr (JObj [(''method'', JStr ''login''),
                         (''params'', JObj [(''type'', JStr ''HS256''),
                                            (''api_key'', JStr (api_key self)),
                                            (''timestamp'', JNum timestamp),
                                            (''window'', JNum 10000),
                                            (''signature'', JStr signature)])])))
   \<and> str_int 10000 = ''10000''
   \<and> set (hexdigest bs) \<subseteq> set hex_digits
   \<and> (\<bar>now\<bar> < 2 ^ 990 \<longrightarrow> float_mul now 1000 \<noteq> None)"
proof (intro conjI impI)
  show "str_int 10000 = ''10000''" by (rule str_int_10000)
  show "set (hexdigest bs) \<subseteq> set hex_digits" by (rule hexdigest_lower)
  show "float_mul now 1000 \<noteq> None" if "\<bar>now\<bar> < 2 ^ 990"
    using that by (rule float_mul_1000_finite)
  show "ws_authenticate lb now self =
     (case float_mul now 1000 of
        None \<Rightarrow> Inl OverflowError
      | Some product \<Rightarrow>
          (let timestamp = py_int product;
               signature = hexdigest (hmac_sha256 lb (secret_key self)
                             (str_int timestamp @ str_int 10000))
           in Inr (JObj [(''method'', JStr ''login''),
                         (''params'', JObj [(''type'', JStr ''HS256''),
                                            (''api_key'', JStr (api_key self)),
                                            (''timestamp'', JNum timestamp),
                                            (''window'', JNum 10000),
                                            (''signature'', JStr signature)])])))"
    by (simp add: ws_authenticate_def int_of_float_def Let_def split: option.splits)
qed

theorem ws_authenticate_payload_witness:
  "\<bar>demo_now\<bar> < 2 ^ 990
   \<and> ws_authenticate demo_lib demo_now (ChangellyAuth_init ''k1'' ''s1'') =
       Inr (JObj [(''method'', JStr ''login''),
                  (''params'', JObj [(''type'', JStr ''HS256''),
                                     (''api_key'', JStr ''k1''),
                                     (''timestamp'', JNum 1700000000001),
                                     (''window'', JNum 10000),
                                     (''signature'',
                                      JStr ''7331313730303030303030303030313130303030'')])])"
proof -
  have t: "py_int 1700000000001 = 1700000000001" by (simp add: py_int_def)
  from ws_authenticate_payload [where lb = demo_lib and now = demo_now
      and self = "ChangellyAuth_init ''k1'' ''s1''"]
  have "ws_authenticate demo_lib demo_now (ChangellyAuth_init ''k1'' ''s1'') =
       Inr (JObj [(''method'', JStr ''login''),
                  (''params'', JObj [(''type'', JStr ''HS256''),
                                     (''api_key'', JStr ''k1''),
                                     (''timestamp'', JNum 1700000000001),
                                     (''window'', JNum 10000),
                                     (''signature'',
                                      JStr ''7331313730303030303030303030313130303030'')])])"
    by (simp add: float_mul_demo_now t str_int_demo str_int_10000 demo_lib_def
        ChangellyAuth_init_def hexdigest_def hex_byte_def hex_digits_def Let_def)
  with demo_now_small show ?thesis by simp
qed

text \<open>The login payload of the example, as the coroutine sends it.\<close>

lemma demo_login_signed:
  "ws_authenticate demo_lib 2 (ChangellyAuth_init ''k1'' ''s1'') = Inr demo_login"
proof -
  have t: "py_int 2000 = 2000" by (simp add: py_int_def)
  show ?thesis
    by (simp add: ws_authenticate_def int_of_float_def float_mul_2 t str_int_2000 str_int_10000
        demo_lib_def ChangellyAuth_init_def demo_login_def hexdigest_def hex_byte_def
        hex_digits_def Let_def)
qed

section \<open>Properties of the message router\<close>

lemma py_iter_error: "py_iter p = Inl e \<Longrightarrow> e = TypeError"
  by (cases p) auto

lemma put_each_all_ok:
  "\<forall>x\<in>set xs. conv x = Inr (f x) \<Longrightarrow> put_each conv xs q = (q @ map f xs, None)"
  by (induction xs arbitrary: q) simp_all

lemma put_each_stops:
  "\<forall>y\<in>set pre. conv y = Inr (f y) \<Longrightarrow> conv x = Inl e \<Longrightarrow>
     put_each conv (pre @ x # post) q = (q @ map f pre, Some e)"
  by (induction pre arbitrary: q) simp_all

lemma put_each_order_stub:
  "put_each convert_to_internal_order_format xs q = (q @ map (\<lambda>x. JNull) xs, None)"
  by (rule put_each_all_ok) (simp add: convert_to_internal_order_format_def)

lemma put_each_balance_stub:
  "put_each convert_to_internal_balance_format xs q = (q @ map (\<lambda>x. JNull) xs, None)"
  by (rule put_each_all_ok) (simp add: convert_to_internal_balance_format_def)

text \<open>With the stubs of the source the router raises nothing but \<open>KeyError\<close> and \<open>TypeError\<close>.\<close>

lemma stub_router_errors:
  "process_ws_message stub_normalizers fr q = (q', Some e) \<Longrightarrow>
     e = KeyError ''params'' \<or> e = TypeError"
  by (auto simp: process_ws_message_def stub_normalizers_def handle_spot_order_def
      handle_spot_balance_def put_each_order_stub put_each_balance_stub
      split: option.splits if_splits sum.splits dest: py_iter_error)




section \<open>Properties of the supervisor\<close>

lemmas sup_defs = emit_def finally_block_def outer_except_def inner_loop_def
  inner_except_def authenticate_connection_def connect_call_def begin_cycle_def

lemmas eval_defs = run_def listen_for_user_stream_def step_def sup_defs Let_def
  demo_start_def demo_deps_def demo_source_def init_def spec_constants_def demo_login_signed

subsection \<open>The field \<open>_last_recv_time\<close>\<close>

lemma step_keeps_last_recv_time:
  "last_recv_time_attr (obj (step d s ev)) = last_recv_time_attr (obj s)"
  by (simp add: step_def sup_defs Let_def
      split: pc.splits signal.splits option.splits prod.splits sum.splits)

lemma run_keeps_last_recv_time:
  "last_recv_time_attr (obj (run d s evs)) = last_recv_time_attr (obj s)"
  unfolding run_def
  by (induction evs arbitrary: s) (simp_all add: step_keeps_last_recv_time)

text \<open>
  C10. \<open>last_recv_time\<close> returns 0.0 on the constructed object and after any run of the
  coroutine started on it, whatever is connected, sent, received and processed: the field
  is set by the constructor and written by no step.
\<close>

theorem last_recv_time_constant:
  "last_recv_time (init ws0 a pairs) = 0
   \<and> last_recv_time (obj (run d (listen_for_user_stream d (init ws0 a pairs) out t0) evs)) = 0"
  by (simp add: last_recv_time_def run_keeps_last_recv_time listen_for_user_stream_def
      begin_cycle_def connect_call_def emit_def init_def split: option.splits)

theorem last_recv_time_constant_witness:
  "last_recv_time (obj (run demo_deps demo_start
      [(1, Created 7), (2, Returned), (3, Returned),
       (4, Received [(''method'', JStr ''spot_orders''), (''params'', JArr [JStr ''A''])]),
       (34, Raised TimeoutError)])) = 0"
  using last_recv_time_constant [where ?ws0.0 = None and a = "ChangellyAuth_init ''k1'' ''s1''"
      and pairs = "Some [''BTC-USDT'']" and d = demo_deps and out = "[]" and ?t0.0 = 0
      and evs = "[(1, Created 7), (2, Returned), (3, Returned),
       (4, Received [(''method'', JStr ''spot_orders''), (''params'', JArr [JStr ''A''])]),
       (34, Raised TimeoutError)]"]
  by (simp add: demo_start_def demo_source_def)

subsection \<open>Errors, cleanup and the next cycle\<close>

lemma alive_outer_except: "e \<noteq> CancelledError \<Longrightarrow> alive (pc (outer_except e s))"
  by (simp add: sup_defs split: option.splits)

lemma alive_inner_loop: "alive (pc (inner_loop d s))"
  by (simp add: sup_defs Let_def split: option.splits)

lemma alive_inner_except: "e \<noteq> CancelledError \<Longrightarrow> alive (pc (inner_except d e s))"
  by (simp add: inner_except_def alive_inner_loop alive_outer_except Let_def)

lemma alive_connect_call: "alive (pc (connect_call d s))"
  by (simp add: sup_defs split: option.splits)

lemma alive_begin_cycle: "alive (pc (begin_cycle d s))"
  by (simp add: begin_cycle_def alive_connect_call emit_def split: option.splits)

lemma alive_authenticate: "alive (pc (authenticate_connection d s))"
proof (cases "ws_authenticate (lib d) (clock s) (auth (obj s))")
  case (Inl e)
  then have "e \<noteq> CancelledError" using ws_authenticate_error by fastforce
  with Inl show ?thesis by (simp add: authenticate_connection_def alive_outer_except)
next
  case (Inr auth_message)
  then show ?thesis
    by (simp add: authenticate_connection_def alive_outer_except emit_def split: option.splits)
qed

lemma alive_step:
  assumes "alive (pc s)" "no_cancel d s (snd ev)"
  shows "alive (pc (step d s ev))"
proof (cases "snd ev")
  case Returned
  with assms show ?thesis
    by (cases "pc s")
       (simp_all add: step_def Let_def alive_authenticate alive_inner_loop alive_begin_cycle emit_def)
next
  case (Created h)
  with assms show ?thesis
    by (cases "pc s") (simp_all add: step_def Let_def alive_connect_call)
next
  case (Raised e)
  with assms show ?thesis
    by (cases "pc s")
       (simp_all add: step_def Let_def no_cancel_def alive_outer_except alive_inner_except)
next
  case (Received fr)
  show ?thesis
  proof (cases "pc s")
    case AwaitMessages
    obtain q' r where pr: "process_ws_message (norm d) fr (output_queue s) = (q', r)"
      by (cases "process_ws_message (norm d) fr (output_queue s)")
    show ?thesis
    proof (cases r)
      case None
      with pr AwaitMessages Received show ?thesis by (simp add: step_def Let_def)
    next
      case (Some e)
      with pr assms(2) AwaitMessages Received have "e \<noteq> CancelledError"
        by (simp add: no_cancel_def)
      with Some pr AwaitMessages Received show ?thesis
        by (simp add: step_def Let_def alive_inner_except)
    qed
  qed (use assms Received in \<open>simp_all add: step_def Let_def\<close>)
qed

lemma alive_run:
  "alive (pc s) \<Longrightarrow> no_cancel_run d s evs \<Longrightarrow> alive (pc (run d s evs))"
  unfolding run_def
  by (induction evs arbitrary: s) (simp_all add: alive_step)

lemma alive_not_finished: "alive p \<Longrightarrow> \<not> finished p"
  by (cases p) simp_all

lemma alive_listen: "alive (pc (listen_for_user_stream d self out t0))"
  by (simp add: listen_for_user_stream_def alive_begin_cycle)

lemma raise_then_cleanup:
  assumes "in_try (pc s)" "e \<noteq> CancelledError" "\<not> (pc s = AwaitMessages \<and> e = TimeoutError)"
  shows "trace (run d s ((t, Raised e) # cleanup_done (ws s) t1 t2)) =
           trace s @ [LogException retry_message]
             @ (case ws s of None \<Rightarrow> [] | Some h \<Rightarrow> [Disconnect h])
             @ [Sleep 5, first_call d (obj s)]"
    and "pc (run d s ((t, Raised e) # cleanup_done (ws s) t1 t2)) =
           (case ws_assistant (obj s) of None \<Rightarrow> AwaitFactory | Some h \<Rightarrow> AwaitConnect)"
  using assms
  by (cases "pc s"; cases "ws s"; cases "ws_assistant (obj s)";
      simp add: run_def cleanup_done_def first_call_def step_def sup_defs Let_def)+

lemma router_raise_then_cleanup:
  assumes "pc s = AwaitMessages" "process_ws_message (norm d) fr (output_queue s) = (q', Some e)"
    "e \<noteq> CancelledError" "e \<noteq> TimeoutError"
  shows "trace (run d s ((t, Received fr) # cleanup_done (ws s) t1 t2)) =
           trace s @ [LogException retry_message]
             @ (case ws s of None \<Rightarrow> [] | Some h \<Rightarrow> [Disconnect h])
             @ [Sleep 5, first_call d (obj s)]"
    and "pc (run d s ((t, Received fr) # cleanup_done (ws s) t1 t2)) =
           (case ws_assistant (obj s) of None \<Rightarrow> AwaitFactory | Some h \<Rightarrow> AwaitConnect)"
  using assms
  by (cases "ws s"; cases "ws_assistant (obj s)";
      simp add: run_def cleanup_done_def first_call_def step_def sup_defs Let_def)+

text \<open>
  C3, as the code has it. When an event raises an exception in a call of the \<open>try\<close> block
  (creating the instance, connecting, sending the login, waiting for and processing
  frames), and the exception is neither a cancellation nor a \<open>TimeoutError\<close> of the frame
  wait, the coroutine logs it, calls \<open>disconnect\<close> if and only if \<open>ws\<close> is not \<open>None\<close>, and,
  these cleanup calls returning, sleeps 5 seconds and makes the first call of a new cycle.
  And as long as no event raises a cancellation and the calls of the cleanup (\<open>disconnect\<close>,
  \<open>sleep\<close>) do not raise, the coroutine never finishes, whatever fails inside the \<open>try\<close>
  block and however often.
\<close>

theorem errors_lead_to_reconnect:
  "(in_try (pc s) \<and> raised d s sig = Some e \<and> e \<noteq> CancelledError
      \<and> \<not> (pc s = AwaitMessages \<and> e = TimeoutError)
    \<longrightarrow> trace (run d s ((t, sig) # cleanup_done (ws s) t1 t2)) =
           trace s @ [LogException retry_message]
             @ (case ws s of None \<Rightarrow> [] | Some h \<Rightarrow> [Disconnect h])
             @ [Sleep 5, first_call d (obj s)]
        \<and> pc (run d s ((t, sig) # cleanup_done (ws s) t1 t2)) =
           (case ws_assistant (obj s) of None \<Rightarrow> AwaitFactory | Some h \<Rightarrow> AwaitConnect))
   \<and> (no_cancel_run d (listen_for_user_stream d self out t0) evs
    \<longrightarrow> \<not> finished (pc (run d (listen_for_user_stream d self out t0) evs)))"
proof (intro conjI impI)
  assume "no_cancel_run d (listen_for_user_stream d self out t0) evs"
  then show "\<not> finished (pc (run d (listen_for_user_stream d self out t0) evs))"
    by (intro alive_not_finished alive_run alive_listen)
next
  assume a: "in_try (pc s) \<and> raised d s sig = Some e \<and> e \<noteq> CancelledError
      \<and> \<not> (pc s = AwaitMessages \<and> e = TimeoutError)"
  show "trace (run d s ((t, sig) # cleanup_done (ws s) t1 t2)) =
           trace s @ [LogException retry_message]
             @ (case ws s of None \<Rightarrow> [] | Some h \<Rightarrow> [Disconnect h])
             @ [Sleep 5, first_call d (obj s)]"
  proof (cases sig)
    case (Raised e')
    with a show ?thesis using raise_then_cleanup(1) [where s = s and e = e and t = t and d = d and ?t1.0 = t1 and ?t2.0 = t2] by simp
  next
    case (Received fr)
    with a have p: "pc s = AwaitMessages" by (simp split: if_splits)
    with a Received
    have "process_ws_message (norm d) fr (output_queue s)
            = (fst (process_ws_message (norm d) fr (output_queue s)), Some e)"
      by (simp add: prod_eq_iff)
    with a p Received show ?thesis
      using router_raise_then_cleanup(1) [where s = s and e = e and t = t and d = d and fr = fr and ?t1.0 = t1 and ?t2.0 = t2] by simp
  qed (use a in simp_all)
  show "pc (run d s ((t, sig) # cleanup_done (ws s) t1 t2)) =
           (case ws_assistant (obj s) of None \<Rightarrow> AwaitFactory | Some h \<Rightarrow> AwaitConnect)"
  proof (cases sig)
    case (Raised e')
    with a show ?thesis using raise_then_cleanup(2) [where s = s and e = e and t = t and d = d and ?t1.0 = t1 and ?t2.0 = t2] by simp
  next
    case (Received fr)
    with a have p: "pc s = AwaitMessages" by (simp split: if_splits)
    with a Received
    have "process_ws_message (norm d) fr (output_queue s)
            = (fst (process_ws_message (norm d) fr (output_queue s)), Some e)"
      by (simp add: prod_eq_iff)
    with a p Received show ?thesis
      using router_raise_then_cleanup(2) [where s = s and e = e and t = t and d = d and fr = fr and ?t1.0 = t1 and ?t2.0 = t2] by simp
  qed (use a in simp_all)
qed

lemma demo_connecting:
  "run demo_deps demo_start [(1, Created 7)] =
     \<lparr>obj = demo_source\<lparr>ws_assistant := Some 7\<rparr>, ws = Some 7, pc = AwaitConnect,
      output_queue = [], trace = [CallFactory, Connect 7 ''wss://stream''], clock = 1\<rparr>"
  by (simp add: eval_defs)

theorem errors_lead_to_reconnect_witness:
  "trace (run demo_deps demo_start
       [(1, Created 7), (2, Raised (OtherError ''connect failed'')), (3, Returned), (8, Returned)])
     = [CallFactory, Connect 7 ''wss://stream'', LogException retry_message, Disconnect 7,
        Sleep 5, Connect 7 ''wss://stream'']
   \<and> no_cancel_run demo_deps demo_start
       [(1, Created 7), (2, Raised (OtherError ''connect failed'')), (3, Returned), (8, Returned),
        (9, Raised (OtherError ''connect failed'')), (10, Returned), (15, Returned),
        (16, Raised (OtherError ''connect failed''))]
   \<and> \<not> finished (pc (run demo_deps demo_start
       [(1, Created 7), (2, Raised (OtherError ''connect failed'')), (3, Returned), (8, Returned),
        (9, Raised (OtherError ''connect failed'')), (10, Returned), (15, Returned),
        (16, Raised (OtherError ''connect failed''))]))"
proof -
  let ?e = "OtherError ''connect failed''"
  let ?evs = "[(1, Created 7), (2, Raised ?e), (3, Returned), (8, Returned),
        (9, Raised ?e), (10, Returned), (15, Returned), (16, Raised ?e)]"
  let ?s = "run demo_deps demo_start [(1, Created 7)]"
  have n: "no_cancel_run demo_deps demo_start ?evs"
    by (simp add: eval_defs no_cancel_def)
  have w: "ws ?s = Some 7" by (simp add: demo_connecting)
  have p: "pc ?s = AwaitConnect" by (simp add: demo_connecting)
  have tr: "trace ?s = [CallFactory, Connect 7 ''wss://stream'']" by (simp add: demo_connecting)
  have "obj ?s = demo_source\<lparr>ws_assistant := Some 7\<rparr>" by (simp add: demo_connecting)
  then have f: "first_call demo_deps (obj ?s) = Connect 7 ''wss://stream''"
    by (simp add: first_call_def demo_deps_def spec_constants_def)
  have r: "run demo_deps ?s ((2, Raised ?e) # cleanup_done (Some 7) 3 8)
           = run demo_deps demo_start
               [(1, Created 7), (2, Raised ?e), (3, Returned), (8, Returned)]"
    by (simp add: run_def cleanup_done_def)
  have h: "in_try (pc ?s) \<and> raised demo_deps ?s (Raised ?e) = Some ?e \<and> ?e \<noteq> CancelledError
      \<and> \<not> (pc ?s = AwaitMessages \<and> ?e = TimeoutError)"
    by (simp add: p)
  from errors_lead_to_reconnect [where s = ?s and d = demo_deps and sig = "Raised ?e"
      and e = ?e and t = 2 and ?t1.0 = 3 and ?t2.0 = 8 and self = demo_source and out = "[]"
      and ?t0.0 = 0 and evs = ?evs]
  have t: "trace (run demo_deps ?s ((2, Raised ?e) # cleanup_done (ws ?s) 3 8)) =
           trace ?s @ [LogException retry_message]
             @ (case ws ?s of None \<Rightarrow> [] | Some h \<Rightarrow> [Disconnect h])
             @ [Sleep 5, first_call demo_deps (obj ?s)]"
    and nf: "\<not> finished (pc (run demo_deps demo_start ?evs))"
    using h n by (simp_all add: demo_start_def)
  from t have "trace (run demo_deps demo_start
                  [(1, Created 7), (2, Raised ?e), (3, Returned), (8, Returned)])
               = [CallFactory, Connect 7 ''wss://stream'', LogException retry_message,
                  Disconnect 7, Sleep 5, Connect 7 ''wss://stream'']"
    unfolding w f tr r by simp
  with n nf show ?thesis by blast
qed

text \<open>
  Two runs on the example. In the first the login is sent and a \<open>TimeoutError\<close> is raised
  while frames are awaited: it is taken for the heartbeat, so nothing is logged, nothing
  disconnected, no sleep and no new cycle follow, and the frame wait starts again. In the
  second the connection fails and then \<open>disconnect\<close>, called in the \<open>finally\<close> block, raises
  an ordinary exception: the coroutine ends with that exception.
\<close>

theorem errors_lead_to_reconnect_counterexample:
  "trace (run demo_deps demo_start
       [(1, Created 7), (2, Returned), (3, Returned), (4, Raised TimeoutError)])
     = [CallFactory, Connect 7 ''wss://stream'', Send 7 demo_login, WaitMessages 7 30,
        WaitMessages 7 30]
   \<and> pc (run demo_deps demo_start
       [(1, Created 7), (2, Returned), (3, Returned), (4, Raised TimeoutError)]) = AwaitMessages
   \<and> pc (run demo_deps demo_start
       [(1, Created 7), (2, Raised (OtherError ''connect failed'')),
        (3, Raised (OtherError ''disconnect failed''))])
     = Finished (OtherError ''disconnect failed'')"
  by (simp add: eval_defs)

subsection \<open>Cancellation\<close>

text \<open>
  C4, evaluated. The coroutine is cancelled while it awaits \<open>connect\<close>. It calls
  \<open>disconnect\<close>, and when that returns it is not finished: it has called \<open>sleep(5)\<close> and
  waits for it with the cancellation pending. Only when the sleep returns is
  \<open>CancelledError\<close> raised to the caller.
\<close>

theorem cancellation_sleeps_before_raising:
  "pc (run demo_deps demo_start [(1, Created 7), (2, Raised CancelledError)])
     = AwaitDisconnect (Some CancelledError)
   \<and> trace (run demo_deps demo_start [(1, Created 7), (2, Raised CancelledError), (3, Returned)])
       = [CallFactory, Connect 7 ''wss://stream'', Disconnect 7, Sleep 5]
   \<and> pc (run demo_deps demo_start [(1, Created 7), (2, Raised CancelledError), (3, Returned)])
       = AwaitSleep (Some CancelledError)
   \<and> pc (run demo_deps demo_start
           [(1, Created 7), (2, Raised CancelledError), (3, Returned), (8, Returned)])
       = Finished CancelledError"
  by (simp add: eval_defs)

subsection \<open>Subscription\<close>

text \<open>
  C5, evaluated. With one trading pair configured, a cycle in which the instance is
  created, the connection made and the login sent goes from the login straight to the
  frame wait: the trace has no send of a subscribe frame. \<open>_subscribe_channels\<close> would
  send one frame with id 21 for the pair, but \<open>listen_for_user_stream\<close> does not call it.
\<close>

theorem no_subscribe_in_cycle:
  "trace (run demo_deps demo_start [(1, Created 7), (2, Returned), (3, Returned)])
     = [CallFactory, Connect 7 ''wss://stream'', Send 7 demo_login, WaitMessages 7 30]
   \<and> ws_authenticate demo_lib 2 (ChangellyAuth_init ''k1'' ''s1'') = Inr demo_login
   \<and> pc (run demo_deps demo_start [(1, Created 7), (2, Returned), (3, Returned)]) = AwaitMessages
   \<and> trading_pairs demo_source = [''BTC-USDT'']
   \<and> subscribe_channels spec_constants 7 (trading_pairs demo_source) []
       = ([Send 7 (JObj [(''method'', JStr ''spot_subscribe''), (''params'', JObj []),
                        (''id'', JNum 21)])], None)"
  by (simp add: eval_defs subscribe_payload_def SPOT_STREAM_ID_def)

subsection \<open>The instance used by the cycles\<close>

lemma wf_outer_except: "wf s \<Longrightarrow> wf (outer_except e s)"
  by (auto simp: wf_def outer_except_def finally_block_def emit_def split: option.splits)

lemma wf_inner_loop: "wf s \<Longrightarrow> wf (inner_loop d s)"
  unfolding inner_loop_def Let_def
  by (auto simp: wf_outer_except split: option.splits)
     (auto simp: wf_def emit_def split: option.splits)

lemma wf_inner_except: "wf s \<Longrightarrow> wf (inner_except d e s)"
proof -
  assume w: "wf s"
  then have "wf (s\<lparr>obj := (obj s)\<lparr>last_ws_message_sent_timestamp := Some (clock s)\<rparr>\<rparr>)"
    by (simp add: wf_def split: option.splits)
  then have "wf (inner_loop d (s\<lparr>obj := (obj s)\<lparr>last_ws_message_sent_timestamp := Some (clock s)\<rparr>\<rparr>))"
    by (rule wf_inner_loop)
  with w show ?thesis
    by (simp add: inner_except_def Let_def wf_outer_except)
qed

lemma wf_authenticate: "wf s \<Longrightarrow> wf (authenticate_connection d s)"
  unfolding authenticate_connection_def
  by (auto simp: wf_outer_except split: option.splits sum.splits)
     (auto simp: wf_def emit_def split: option.splits)

lemma wf_begin_cycle: "wf s \<Longrightarrow> wf (begin_cycle d s)"
  by (auto simp: wf_def begin_cycle_def connect_call_def emit_def split: option.splits)

lemma wf_clock: "wf s \<Longrightarrow> wf (s\<lparr>clock := t\<rparr>)"
  by (simp add: wf_def split: option.splits)

lemma wf_step: "wf s \<Longrightarrow> wf (step d s ev)"
proof -
  assume w0: "wf s"
  then have w: "wf (s\<lparr>clock := fst ev\<rparr>)" by (rule wf_clock)
  show ?thesis
  proof (cases "pc s")
    case AwaitFactory
    with w0 have "wf (connect_call d
        (s\<lparr>clock := fst ev, obj := (obj s)\<lparr>ws_assistant := Some h\<rparr>, ws := Some h\<rparr>))" for h
      by (auto simp: wf_def connect_call_def emit_def split: option.splits)
    with w0 w AwaitFactory show ?thesis
      by (cases "snd ev") (simp_all add: step_def Let_def wf_outer_except)
  next
    case AwaitConnect
    with w0 w show ?thesis
      by (cases "snd ev") (simp_all add: step_def Let_def wf_outer_except wf_authenticate)
  next
    case AwaitSend
    from w0 have "wf (s\<lparr>clock := fst ev,
        obj := (obj s)\<lparr>last_ws_message_sent_timestamp := Some (fst ev)\<rparr>\<rparr>)"
      by (simp add: wf_def split: option.splits)
    then have "wf (inner_loop d (s\<lparr>clock := fst ev,
        obj := (obj s)\<lparr>last_ws_message_sent_timestamp := Some (fst ev)\<rparr>\<rparr>))"
      by (rule wf_inner_loop)
    with w0 w AwaitSend show ?thesis
      by (cases "snd ev") (simp_all add: step_def Let_def wf_outer_except)
  next
    case AwaitMessages
    from w0 have q: "wf (s\<lparr>clock := fst ev, output_queue := q\<rparr>)" for q
      by (simp add: wf_def split: option.splits)
    show ?thesis
    proof (cases "snd ev")
      case (Received fr)
      obtain q' r where pr: "process_ws_message (norm d) fr (output_queue s) = (q', r)"
        by (cases "process_ws_message (norm d) fr (output_queue s)")
      with AwaitMessages Received q [of q'] wf_inner_except [OF q [of q'], of d] show ?thesis
        by (cases r) (simp_all add: step_def Let_def)
    qed (use w0 w AwaitMessages in
          \<open>simp_all add: step_def Let_def wf_inner_except wf_inner_loop\<close>)
  next
    case (AwaitDisconnect p)
    with w0 show ?thesis
      by (cases "snd ev") (auto simp: step_def Let_def wf_def emit_def split: option.splits)
  next
    case (AwaitSleep p)
    with w0 have "wf (s\<lparr>clock := fst ev, pc := Finished e\<rparr>)" for e
      by (auto simp: wf_def split: option.splits)
    with w0 w AwaitSleep show ?thesis
      by (cases "snd ev"; cases p) (simp_all add: step_def Let_def wf_begin_cycle)
  next
    case (Finished e)
    with w0 show ?thesis by (simp add: step_def Let_def)
  qed
qed

lemma wf_run: "wf s \<Longrightarrow> wf (run d s evs)"
  unfolding run_def by (induction evs arbitrary: s) (simp_all add: wf_step)

lemma wf_listen: "wf (listen_for_user_stream d self out t0)"
  unfolding listen_for_user_stream_def
  by (auto simp: wf_def begin_cycle_def connect_call_def emit_def split: option.splits)

lemma wf_reachable: "wf (run d (listen_for_user_stream d self out t0) evs)"
  by (simp add: wf_run wf_listen)

lemma wf_uses_handle: "wf s \<Longrightarrow> uses_handle (pc s) \<Longrightarrow> \<exists>h. ws s = Some h"
  by (cases "ws_assistant (obj s)") (simp_all add: wf_def)

lemma wf_handles:
  "wf s \<Longrightarrow> a \<in> set (trace s) \<Longrightarrow> handle_of a = Some h \<Longrightarrow>
     ws s = Some h \<and> ws_assistant (obj s) = Some h"
  by (cases "ws_assistant (obj s)") (auto simp: wf_def)

text \<open>Once an instance is stored it stays stored, and the factory is not called again.\<close>

lemma stored_step:
  assumes "wf s" "ws_assistant (obj s) = Some h"
  shows "ws_assistant (obj (step d s ev)) = Some h
         \<and> (\<exists>new. trace (step d s ev) = trace s @ new \<and> CallFactory \<notin> set new)"
proof -
  from assms have w: "ws s = Some h" and p: "pc s \<noteq> AwaitFactory"
    by (simp_all add: wf_def)
  with assms(2) show ?thesis
    by (cases "pc s"; cases "snd ev")
       (auto simp: step_def sup_defs Let_def split: option.splits prod.splits sum.splits)
qed

lemma stored_run:
  "wf s \<Longrightarrow> ws_assistant (obj s) = Some h \<Longrightarrow>
     ws_assistant (obj (run d s evs)) = Some h
     \<and> (\<exists>new. trace (run d s evs) = trace s @ new \<and> CallFactory \<notin> set new)"
proof (induction evs arbitrary: s)
  case Nil
  then show ?case by (simp add: run_def)
next
  case (Cons ev evs)
  from stored_step [OF Cons.prems, of d ev]
  obtain n1 where s1: "ws_assistant (obj (step d s ev)) = Some h"
    and t1: "trace (step d s ev) = trace s @ n1" and c1: "CallFactory \<notin> set n1"
    by blast
  from Cons.IH [OF wf_step [OF Cons.prems(1)] s1]
  obtain n2 where s2: "ws_assistant (obj (run d (step d s ev) evs)) = Some h"
    and t2: "trace (run d (step d s ev) evs) = trace (step d s ev) @ n2"
    and c2: "CallFactory \<notin> set n2"
    by blast
  have "run d s (ev # evs) = run d (step d s ev) evs" by (simp add: run_def)
  with s2 t1 t2 c1 c2 show ?case by auto
qed

text \<open>
  C9, as the code has it. In every run of the coroutine all calls on an instance
  (connect, send, frame wait, disconnect), of whatever cycle, are made on the one instance
  stored in \<open>_ws_assistant\<close>; and once an instance is stored, no later cycle calls the
  factory: the later cycle reuses the instance of the earlier one.
\<close>

theorem one_instance_for_all_cycles:
  "(a \<in> set (trace (run d (listen_for_user_stream d self out t0) evs))
      \<and> b \<in> set (trace (run d (listen_for_user_stream d self out t0) evs))
      \<and> handle_of a = Some h \<and> handle_of b = Some h'
    \<longrightarrow> h = h' \<and> ws_assistant (obj (run d (listen_for_user_stream d self out t0) evs)) = Some h)
   \<and> (ws_assistant (obj (run d (listen_for_user_stream d self out t0) evs)) = Some h
    \<longrightarrow> ws_assistant (obj (run d (listen_for_user_stream d self out t0) (evs @ later))) = Some h
        \<and> (\<exists>new. trace (run d (listen_for_user_stream d self out t0) (evs @ later))
                    = trace (run d (listen_for_user_stream d self out t0) evs) @ new
                  \<and> CallFactory \<notin> set new))"
proof (intro conjI impI)
  let ?s = "run d (listen_for_user_stream d self out t0) evs"
  assume "a \<in> set (trace ?s) \<and> b \<in> set (trace ?s)
      \<and> handle_of a = Some h \<and> handle_of b = Some h'"
  then have a: "a \<in> set (trace ?s)" "handle_of a = Some h"
    and b: "b \<in> set (trace ?s)" "handle_of b = Some h'"
    by simp_all
  from wf_handles [OF wf_reachable a] wf_handles [OF wf_reachable b]
  show "h = h'" and "ws_assistant (obj ?s) = Some h" by simp_all
next
  let ?s = "run d (listen_for_user_stream d self out t0) evs"
  assume st: "ws_assistant (obj ?s) = Some h"
  have split: "run d (listen_for_user_stream d self out t0) (evs @ later) = run d ?s later"
    by (simp add: run_def)
  from stored_run [OF wf_reachable st, of d later]
  show "ws_assistant (obj (run d (listen_for_user_stream d self out t0) (evs @ later))) = Some h"
    and "\<exists>new. trace (run d (listen_for_user_stream d self out t0) (evs @ later))
                    = trace ?s @ new \<and> CallFactory \<notin> set new"
    unfolding split by simp_all
qed

theorem one_instance_for_all_cycles_witness:
  "Connect 7 ''wss://stream'' \<in> set (trace (run demo_deps demo_start [(1, Created 7)]))
   \<and> ws_assistant (obj (run demo_deps demo_start [(1, Created 7)])) = Some 7
   \<and> ws_assistant (obj (run demo_deps demo_start
        ([(1, Created 7)] @
         [(2, Raised (OtherError ''connect failed'')), (3, Returned), (8, Returned)]))) = Some 7
   \<and> (\<exists>new. trace (run demo_deps demo_start
        ([(1, Created 7)] @
         [(2, Raised (OtherError ''connect failed'')), (3, Returned), (8, Returned)]))
         = trace (run demo_deps demo_start [(1, Created 7)]) @ new \<and> CallFactory \<notin> set new)"
proof -
  let ?s = "run demo_deps demo_start [(1, Created 7)]"
  have a: "Connect 7 ''wss://stream'' \<in> set (trace ?s)" by (simp add: demo_connecting)
  have h: "handle_of (Connect 7 ''wss://stream'') = Some 7" by simp
  note inst = one_instance_for_all_cycles [where d = demo_deps and self = demo_source
      and out = "[]" and ?t0.0 = 0 and evs = "[(1, Created 7)]"
      and a = "Connect 7 ''wss://stream''" and b = "Connect 7 ''wss://stream''"
      and h = 7 and h' = 7
      and later = "[(2, Raised (OtherError ''connect failed'')), (3, Returned), (8, Returned)]",
      folded demo_start_def]
  from inst a h have st: "ws_assistant (obj ?s) = Some 7" by blast
  with inst a show ?thesis by blast
qed

text \<open>
  Two cycles on the example: the connection of the first cycle fails, and the second cycle
  connects the same instance 7 again, without a call of the factory.
\<close>

theorem handle_reused_counterexample:
  "trace (run demo_deps demo_start
       [(1, Created 7), (2, Raised (OtherError ''connect failed'')), (3, Returned), (8, Returned)])
     = [CallFactory, Connect 7 ''wss://stream'', LogException retry_message, Disconnect 7,
        Sleep 5, Connect 7 ''wss://stream'']"
  by (simp add: eval_defs)

subsection \<open>The heartbeat\<close>

text \<open>
  C8. In any state the coroutine reaches in which it waits for frames, the expiry of the
  timeout at time \<open>t\<close> records \<open>t\<close> as the new time of the last sent message and starts a
  new frame wait with the full interval on the same instance: nothing is disconnected, no
  cleanup or new cycle starts, and the queue of pushed values is as it was.
\<close>

theorem heartbeat_expiry_keeps_connection:
  assumes "s = run d (listen_for_user_stream d self out t0) evs" and "pc s = AwaitMessages"
  shows "\<exists>h. ws s = Some h
     \<and> pc (step d s (t, Raised TimeoutError)) = AwaitMessages
     \<and> last_ws_message_sent_timestamp (obj (step d s (t, Raised TimeoutError))) = Some t
     \<and> trace (step d s (t, Raised TimeoutError)) =
         trace s @ [WaitMessages h (WS_HEARTBEAT_TIME_INTERVAL (CONSTANTS d))]
     \<and> output_queue (step d s (t, Raised TimeoutError)) = output_queue s
     \<and> ws (step d s (t, Raised TimeoutError)) = ws s
     \<and> ws_assistant (obj (step d s (t, Raised TimeoutError))) = ws_assistant (obj s)"
proof -
  have "wf s" using assms(1) wf_reachable by simp
  then obtain h where h: "ws s = Some h"
    using assms(2) wf_uses_handle [of s] by auto
  with assms(2) show ?thesis
    by (simp add: step_def inner_except_def inner_loop_def emit_def Let_def)
qed

lemma demo_listening:
  "run demo_deps demo_start [(1, Created 7), (2, Returned), (3, Returned)] =
     \<lparr>obj = demo_source\<lparr>ws_assistant := Some 7, last_ws_message_sent_timestamp := Some 3\<rparr>,
      ws = Some 7, pc = AwaitMessages, output_queue = [],
      trace = [CallFactory, Connect 7 ''wss://stream'', Send 7 demo_login, WaitMessages 7 30],
      clock = 3\<rparr>"
  by (simp add: eval_defs)

theorem heartbeat_expiry_keeps_connection_witness:
  "pc (run demo_deps demo_start [(1, Created 7), (2, Returned), (3, Returned)]) = AwaitMessages
   \<and> trace (run demo_deps demo_start
        [(1, Created 7), (2, Returned), (3, Returned), (33, Raised TimeoutError)])
     = [CallFactory, Connect 7 ''wss://stream'', Send 7 demo_login,
        WaitMessages 7 30, WaitMessages 7 30]
   \<and> pc (run demo_deps demo_start
        [(1, Created 7), (2, Returned), (3, Returned), (33, Raised TimeoutError)]) = AwaitMessages"
proof -
  let ?s = "run demo_deps demo_start [(1, Created 7), (2, Returned), (3, Returned)]"
  have p: "pc ?s = AwaitMessages" by (simp add: demo_listening)
  have w: "ws ?s = Some 7" by (simp add: demo_listening)
  have t: "trace ?s = [CallFactory, Connect 7 ''wss://stream'', Send 7 demo_login,
        WaitMessages 7 30]"
    by (simp add: demo_listening)
  have r: "run demo_deps demo_start
             [(1, Created 7), (2, Returned), (3, Returned), (33, Raised TimeoutError)]
          = step demo_deps ?s (33, Raised TimeoutError)"
    by (simp add: run_def)
  have c: "WS_HEARTBEAT_TIME_INTERVAL (CONSTANTS demo_deps) = 30"
    by (simp add: demo_deps_def spec_constants_def)
  have s0: "?s = run demo_deps (listen_for_user_stream demo_deps demo_source [] 0)
                   [(1, Created 7), (2, Returned), (3, Returned)]"
    by (simp add: demo_start_def)
  from heartbeat_expiry_keeps_connection [OF s0 p, of 33]
  have "pc (step demo_deps ?s (33, Raised TimeoutError)) = AwaitMessages"
    and "trace (step demo_deps ?s (33, Raised TimeoutError)) = trace ?s @ [WaitMessages 7 30]"
    unfolding w c by auto
  then show ?thesis unfolding r t using p by simp
qed

end
